theory Spec2Isabelle
  imports Complex_Main "HOL-Library.Word"
begin

unbundle bit_operations_syntax

section \<open>Numbers and the seeded random source\<close>

text \<open>
  The engine modelled here is the simulator with price modes, experiment phases and the
  five-field series point (the file whose header reads "Planificador Humano (completa)").
  JavaScript numbers are modelled as real numbers: every formula below is the source's
  formula with exact arithmetic in place of IEEE double rounding, and the non-finite
  values (NaN and the infinities) do not exist in the model. Integer-valued numbers
  (ticks, delays) are \<open>int\<close>. The 32-bit operations of the random source are exact.

  \<open>mulberry32\<close> keeps a counter \<open>a\<close> in a closure; every call adds
  \<open>0x6d2b79f5\<close> to it and hashes its low 32 bits. Only \<open>a mod 2^32\<close> is ever read,
  so the counter is a 32-bit word. A call returns the uniform number and the new counter.
\<close>

type_synonym rng = "32 word"

definition imul :: "32 word \<Rightarrow> 32 word \<Rightarrow> 32 word" where
  "imul x y = x * y"

definition mulberry32 :: "rng \<Rightarrow> real \<times> rng" where
  "mulberry32 a =
     (let a1 = a + 0x6d2b79f5;
          t1 = imul (a1 XOR drop_bit 15 a1) (a1 OR 1);
          t2 = t1 XOR (t1 + imul (t1 XOR drop_bit 7 t1) (t1 OR 61))
      in (real (unat (t2 XOR drop_bit 14 t2)) / 4294967296, a1))"

definition randRange :: "rng \<Rightarrow> real \<Rightarrow> real \<Rightarrow> real \<times> rng" where
  "randRange r lo hi = (let (u, r1) = mulberry32 r in (lo + (hi - lo) * u, r1))"

text \<open>\<open>x || d\<close> on numbers: the default replaces a zero.\<close>

definition js_or :: "real \<Rightarrow> real \<Rightarrow> real" where
  "js_or x d = (if x = 0 then d else x)"

definition math_round :: "real \<Rightarrow> int" where
  "math_round x = \<lfloor>x + 1 / 2\<rfloor>"

definition math_floor :: "real \<Rightarrow> int" where
  "math_floor x = \<lfloor>x\<rfloor>"

text \<open>
  \<open>Number(x.toFixed(d))\<close>: the decimal with \<open>d\<close> digits nearest to \<open>x\<close>, the larger
  magnitude on a tie, the sign handled apart.
\<close>

definition toFixed :: "nat \<Rightarrow> real \<Rightarrow> real" where
  "toFixed d x =
     (if x < 0 then - (real_of_int \<lfloor>(- x) * 10 ^ d + 1 / 2\<rfloor> / 10 ^ d)
      else real_of_int \<lfloor>x * 10 ^ d + 1 / 2\<rfloor> / 10 ^ d)"


section \<open>Configuration constants (DEFAULT)\<close>

definition consumersN :: nat where "consumersN = 350"
definition p0_default :: real where "p0_default = 1"
definition pMin :: real where "pMin = 0.01"
definition pPriceAdjustGain :: real where "pPriceAdjustGain = 0.08"
definition probPerTick :: real where "probPerTick = 0.03"

section \<open>Data model\<close>

datatype demand_type = Linear | Log | Exp | Poly

text \<open>
  Field names: \<open>coef_a\<close>, \<open>coef_b\<close> are the consumer's \<open>a\<close> and \<open>b\<close>; \<open>fid\<close>, \<open>tfpA\<close>
  are a firm's \<open>id\<close> and \<open>A\<close>. A firm id \<open>PBC3\<close> is the number 3 within its tier.
\<close>

record consumer =
  ctype :: demand_type
  coef_a :: real
  coef_b :: real
  nextUpdateAt :: int
  lastUpdate :: int
  nextChange :: int

record firm =
  fid :: nat
  tfpA :: real
  capacity :: real
  marginalCost :: real
  inventory :: real
  planned :: real
  history :: "(int \<times> real) list"

datatype tier = TierPBC | TierPFP | TierPMP

datatype order_level = PBC_to_PFP | PFP_to_PMP

text \<open>
  An order holds a reference \<open>orig\<close> to the order it covers. Orders are only ever
  appended to \<open>s.orders\<close>, so the reference is the position of that order in the list.
  \<open>ofrom\<close> and \<open>oto\<close> are the fields \<open>from\<close> and \<open>to\<close>.
\<close>

record order =
  level :: order_level
  ofrom :: nat
  oto :: nat
  amount :: real
  due :: int
  filled :: bool
  orig :: "nat option"

record innovation =
  ifirm :: nat
  ilevel :: tier
  costMul :: real
  tfpMul :: real
  scheduleAt :: int
  adoptAt :: int
  adopted :: bool

datatype log_entry = OrderFilled int nat | InnovationAdopted int tier nat

text \<open>The simulation object \<open>s\<close>: \<open>tick\<close> is \<open>s.t\<close>, \<open>srng\<close> the counter of \<open>s.rng\<close>.\<close>

record state =
  tick :: int
  seed :: int
  srng :: rng
  price :: real
  consumers :: "consumer list"
  firmsPBC :: "firm list"
  firmsPFP :: "firm list"
  firmsPMP :: "firm list"
  orders :: "order list"
  logs :: "log_entry list"
  innovations :: "innovation list"

text \<open>
  What the tick reads from outside the simulation object: the price mode, the manual
  price, the planner's demand function (absent in automatic mode) and the experiment
  phase. A call of the planner's function returns a number or throws.
\<close>

datatype price_mode = Auto | Manual

datatype fn_result = Returns real | Throws

datatype phase = PhaseA | PhaseB | PhaseC

record inputs =
  priceMode :: price_mode
  manualPrice :: real
  userDemandFn :: "(real \<Rightarrow> fn_result) option"
  phaseIdx :: phase

fun feedbackStrength :: "phase \<Rightarrow> real" where
  "feedbackStrength PhaseA = 0.05"
| "feedbackStrength PhaseB = 0.12"
| "feedbackStrength PhaseC = 0.4"

text \<open>The series point appended by a tick.\<close>

record point =
  pt_t :: int
  pt_price :: real
  qDemand :: real
  qServed :: real
  efficiency :: real

datatype 'a outcome = Done 'a | Threw 'a

datatype tick_result = Completed state point | Aborted state

section \<open>Consumer demand\<close>

definition computeConsumerDemand :: "consumer \<Rightarrow> real \<Rightarrow> rng \<Rightarrow> real \<times> rng" where
  "computeConsumerDemand c p r =
     (let q = (case ctype c of
                 Linear \<Rightarrow> coef_a c - coef_b c * p
               | Log \<Rightarrow> coef_a c - coef_b c * ln (1 + max 0 p)
               | Exp \<Rightarrow> coef_a c * exp (- coef_b c * p)
               | Poly \<Rightarrow> (let cc = max 0.001 (coef_b c * 0.01)
                          in max 0 (coef_a c - coef_b c * p - cc * p * p)));
          (u, r1) = mulberry32 r;
          noise = 1 + (u - 0.5) * 2 * 0.05
      in (max 0 (q * noise), r1))"

text \<open>The sum of \<open>computeConsumerDemand\<close> over a list of consumers, drawing in order.\<close>

fun sumConsumerDemand :: "consumer list \<Rightarrow> real \<Rightarrow> rng \<Rightarrow> real \<times> rng" where
  "sumConsumerDemand [] p r = (0, r)"
| "sumConsumerDemand (c # cs) p r =
     (let (q, r1) = computeConsumerDemand c p r;
          (Q, r2) = sumConsumerDemand cs p r1
      in (q + Q, r2))"

section \<open>Least squares and the survey\<close>




section \<open>The tick: consumers\<close>

definition regimeChange :: "int \<Rightarrow> consumer \<Rightarrow> rng \<Rightarrow> consumer \<times> rng" where
  "regimeChange t c r =
     (if t \<ge> nextChange c then
        (let (roll, r1) = mulberry32 r;
             (c1, r3) =
               (if roll < 0.33 then
                  (let (a1, r2) = randRange r1 100 150;
                       (b1, r3) = randRange r2 0.5 1.0
                   in (c\<lparr>ctype := Linear, coef_a := a1, coef_b := b1\<rparr>, r3))
                else if roll < 0.66 then
                  (let (a1, r2) = randRange r1 80 120;
                       (b1, r3) = randRange r2 5 10
                   in (c\<lparr>ctype := Log, coef_a := a1, coef_b := b1\<rparr>, r3))
                else
                  (let (a1, r2) = randRange r1 90 120;
                       (b1, r3) = randRange r2 0.1 0.3
                   in (c\<lparr>ctype := Exp, coef_a := a1, coef_b := b1\<rparr>, r3)));
             (v, r4) = randRange r3 0 70
         in (c1\<lparr>nextChange := t + 30 + math_floor v\<rparr>, r4))
      else (c, r))"

text \<open>The draw of \<open>(a, b)\<close> from the initial distribution, shared by creation and resampling.\<close>

definition resampleB :: "rng \<Rightarrow> real \<times> rng" where
  "resampleB r =
     (let (signRoll, r1) = mulberry32 r in
      if signRoll < 0.75 then randRange r1 0.01 10
      else if signRoll < 0.95 then (0, r1)
      else (let (v, r2) = randRange r1 0.1 5 in (- v, r2)))"

definition scheduledUpdate :: "int \<Rightarrow> consumer \<Rightarrow> rng \<Rightarrow> consumer \<times> rng" where
  "scheduledUpdate t c r =
     (if t \<ge> nextUpdateAt c then
        (let (roll, r1) = mulberry32 r;
             (c1, r2) =
               (if roll < 0.15 then
                  (let (a1, ra) = randRange r1 5 200;
                       (b1, rb) = resampleB ra
                   in (c\<lparr>coef_a := a1, coef_b := b1\<rparr>, rb))
                else
                  (let (u1, ra) = mulberry32 r1;
                       (u2, rb) = mulberry32 ra
                   in (c\<lparr>coef_a := coef_a c * (1 + (u1 - 0.5) * 0.08),
                          coef_b := coef_b c * (1 + (u2 - 0.5) * 0.04)\<rparr>, rb)));
             (shock, r3) = mulberry32 r2;
             (c2, r4) =
               (if shock < 0.01 then
                  (let (m, rr) = randRange r3 1.5 3.0 in (c1\<lparr>coef_a := coef_a c1 * m\<rparr>, rr))
                else (c1, r3));
             (v, r5) = randRange r4 30 90
         in (c2\<lparr>nextUpdateAt := t + math_round v, lastUpdate := t\<rparr>, r5))
      else (c, r))"

definition consumerReact :: "real \<Rightarrow> real \<Rightarrow> rng \<Rightarrow> real \<times> rng" where
  "consumerReact prevPrice newPrice r =
     (if newPrice = prevPrice then (1, r)
      else
        (let (roll, r1) = mulberry32 r in
         if newPrice > prevPrice then
           (if roll < 0.8 then randRange r1 0.7 0.95
            else if roll < 0.8 + 0.18 then randRange r1 0.98 1.02
            else randRange r1 1.01 1.2)
         else
           (if roll < 0.7 then randRange r1 1.01 1.2
            else if roll < 0.95 then randRange r1 0.98 1.02
            else randRange r1 0.7 0.95)))"

text \<open>One pass of the consumer loop: the updated consumer and its demand \<open>baseQ\<close>.\<close>

definition consumerStep ::
  "int \<Rightarrow> real \<Rightarrow> real \<Rightarrow> real \<Rightarrow> consumer \<Rightarrow> rng \<Rightarrow> consumer \<times> real \<times> rng" where
  "consumerStep t prevPrice p fs c r =
     (let (c1, r1) = regimeChange t c r;
          (c2, r2) = scheduledUpdate t c1 r1;
          (u1, r3) = mulberry32 r2;
          c3 = c2\<lparr>coef_a := coef_a c2 + (u1 - 0.5) * 0.01 * coef_a c2\<rparr>;
          (u2, r4) = mulberry32 r3;
          c4 = c3\<lparr>coef_b := coef_b c3 + (u2 - 0.5) * 0.01 * coef_b c3\<rparr>;
          c5 = (if fs \<noteq> 0 then c4\<lparr>coef_a := coef_a c4 + fs * (prevPrice - p)\<rparr> else c4);
          (baseQ, r5) = computeConsumerDemand c5 p r4;
          (reactFactor, r6) = consumerReact prevPrice p r5
      in (c5, baseQ * reactFactor, r6))"

fun consumersLoop ::
  "int \<Rightarrow> real \<Rightarrow> real \<Rightarrow> real \<Rightarrow> consumer list \<Rightarrow> rng \<Rightarrow> consumer list \<times> real \<times> rng" where
  "consumersLoop t prevPrice p fs [] r = ([], 0, r)"
| "consumersLoop t prevPrice p fs (c # cs) r =
     (let (c1, q, r1) = consumerStep t prevPrice p fs c r;
          (cs1, Q, r2) = consumersLoop t prevPrice p fs cs r1
      in (c1 # cs1, q + Q, r2))"

section \<open>The tick: planning and orders to the intermediate tier\<close>

text \<open>
  \<open>perceivedFn(s.price)\<close>: the planner's function when one is set, else the noisy
  multiple of the aggregate demand. \<open>None\<close> is the exception of a throwing function.
\<close>

definition perceivedFn :: "inputs \<Rightarrow> real \<Rightarrow> real \<Rightarrow> rng \<Rightarrow> (real \<times> rng) option" where
  "perceivedFn inp Qagg p r =
     (case userDemandFn inp of
        Some fn \<Rightarrow> (case fn p of Returns v \<Rightarrow> Some (v, r) | Throws \<Rightarrow> None)
      | None \<Rightarrow> (let (u, r1) = mulberry32 r in Some (Qagg * (0.85 + 0.3 * u), r1)))"

text \<open>\<open>firms[Math.floor(u * firms.length)]\<close>, \<open>undefined\<close> outside the array.\<close>

definition pickFirm :: "firm list \<Rightarrow> real \<Rightarrow> firm option" where
  "pickFirm fs u =
     (let i = math_floor (u * real (length fs))
      in if 0 \<le> i \<and> i < int (length fs) then Some (fs ! nat i) else None)"

definition planFirm ::
  "inputs \<Rightarrow> int \<Rightarrow> real \<Rightarrow> real \<Rightarrow> real \<Rightarrow> firm list \<Rightarrow> firm \<Rightarrow> order list \<Rightarrow> rng
     \<Rightarrow> (firm \<times> order list \<times> rng) option" where
  "planFirm inp t p Qagg sumA pfps f ords r =
     (let share = (tfpA f * js_or (capacity f) 1) / sumA in
      case perceivedFn inp Qagg p r of
        None \<Rightarrow> None
      | Some (v, r1) \<Rightarrow>
          (let plan = max 0 v * share;
               f1 = f\<lparr>planned := plan\<rparr>
           in if plan > inventory f then
                (let needed = plan - inventory f;
                     (u, r2) = mulberry32 r1
                 in case pickFirm pfps u of
                      Some pfp \<Rightarrow>
                        (let (d, r3) = randRange r2 5 15
                         in Some (f1, ords @ [\<lparr>level = PBC_to_PFP, ofrom = fid f, oto = fid pfp,
                                               amount = needed, due = t + math_round d,
                                               filled = False, orig = None\<rparr>], r3))
                    | None \<Rightarrow> Some (f1, ords, r2))
              else Some (f1, ords, r1)))"

text \<open>
  The planning loop stops at the first exception; what was assigned before stays assigned.
\<close>

fun planLoop ::
  "inputs \<Rightarrow> int \<Rightarrow> real \<Rightarrow> real \<Rightarrow> real \<Rightarrow> firm list \<Rightarrow> firm list \<Rightarrow> order list \<Rightarrow> rng
     \<Rightarrow> (firm list \<times> order list \<times> rng) outcome" where
  "planLoop inp t p Qagg sumA pfps [] ords r = Done ([], ords, r)"
| "planLoop inp t p Qagg sumA pfps (f # fs) ords r =
     (case planFirm inp t p Qagg sumA pfps f ords r of
        None \<Rightarrow> Threw (f # fs, ords, r)
      | Some (f1, ords1, r1) \<Rightarrow>
          (case planLoop inp t p Qagg sumA pfps fs ords1 r1 of
             Done (fs1, ords2, r2) \<Rightarrow> Done (f1 # fs1, ords2, r2)
           | Threw (fs1, ords2, r2) \<Rightarrow> Threw (f1 # fs1, ords2, r2)))"

section \<open>The tick: base production of the raw and intermediate tiers\<close>

definition produceFirm :: "int \<Rightarrow> firm \<Rightarrow> rng \<Rightarrow> firm \<times> rng" where
  "produceFirm t f r =
     (let (u, r1) = mulberry32 r;
          produced = js_or (capacity f) 10 * (0.4 + u * 0.6)
      in (f\<lparr>inventory := js_or (inventory f) 0 + produced,
            history := history f @ [(t, produced)]\<rparr>, r1))"

fun produceLoop :: "int \<Rightarrow> firm list \<Rightarrow> rng \<Rightarrow> firm list \<times> rng" where
  "produceLoop t [] r = ([], r)"
| "produceLoop t (f # fs) r =
     (let (f1, r1) = produceFirm t f r;
          (fs1, r2) = produceLoop t fs r1
      in (f1 # fs1, r2))"

section \<open>The tick: due orders\<close>

text \<open>\<open>firms.find((x) => x.id === k)\<close>, as the position of the firm found.\<close>

fun findIndex :: "('a \<Rightarrow> bool) \<Rightarrow> 'a list \<Rightarrow> nat option" where
  "findIndex P [] = None"
| "findIndex P (x # xs) = (if P x then Some 0 else map_option Suc (findIndex P xs))"

definition findFirm :: "nat \<Rightarrow> firm list \<Rightarrow> nat option" where
  "findFirm k fs = findIndex (\<lambda>x. fid x = k) fs"

definition markFilled :: "nat \<Rightarrow> order list \<Rightarrow> order list" where
  "markFilled i ords = ords[i := (ords ! i)\<lparr>filled := True\<rparr>]"

text \<open>
  After a raw-tier delivery: when the delivered order covers an original order, that one is
  completed from the intermediate firm's stock if the stock suffices. \<open>jp\<close> is the
  position of the intermediate firm, \<open>j\<close> the position of the original order.
\<close>

definition cascadeFill :: "nat \<Rightarrow> nat \<Rightarrow> state \<Rightarrow> state" where
  "cascadeFill jp j s =
     (if j < length (orders s) then
        (let og = orders s ! j;
             pfp = firmsPFP s ! jp
         in case findFirm (ofrom og) (firmsPBC s) of
              Some jb \<Rightarrow>
                (if inventory pfp \<ge> amount og then
                   (let pbc = firmsPBC s ! jb
                    in s\<lparr>firmsPFP := (firmsPFP s)[jp := pfp\<lparr>inventory := inventory pfp - amount og\<rparr>],
                         firmsPBC := (firmsPBC s)
                            [jb := pbc\<lparr>inventory := js_or (inventory pbc) 0 + amount og\<rparr>],
                         orders := markFilled j (orders s)\<rparr>)
                 else s)
            | None \<Rightarrow> s)
      else s)"

text \<open>The body of the loop over due orders, for the order at position \<open>i\<close>.\<close>

definition processOrder :: "nat \<Rightarrow> state \<Rightarrow> state" where
  "processOrder i s =
     (let ord = orders s ! i; t = tick s in
      case level ord of
        PBC_to_PFP \<Rightarrow>
          (case (findFirm (oto ord) (firmsPFP s), findFirm (ofrom ord) (firmsPBC s)) of
             (Some jp, Some jb) \<Rightarrow>
               (let pfp = firmsPFP s ! jp; pbc = firmsPBC s ! jb in
                if js_or (inventory pfp) 0 \<ge> amount ord then
                  s\<lparr>firmsPFP := (firmsPFP s)[jp := pfp\<lparr>inventory := inventory pfp - amount ord\<rparr>],
                    firmsPBC := (firmsPBC s)
                       [jb := pbc\<lparr>inventory := js_or (inventory pbc) 0 + amount ord\<rparr>],
                    orders := markFilled i (orders s),
                    logs := logs s @ [OrderFilled t i]\<rparr>
                else
                  (let need = max 0 (amount ord - js_or (inventory pfp) 0);
                       (u, r1) = mulberry32 (srng s)
                   in case pickFirm (firmsPMP s) u of
                        Some pmp \<Rightarrow>
                          (let (d, r2) = randRange r1 5 20
                           in s\<lparr>srng := r2,
                                orders := orders s @
                                  [\<lparr>level = PFP_to_PMP, ofrom = fid pfp, oto = fid pmp,
                                    amount = need, due = t + math_round d,
                                    filled = False, orig = Some i\<rparr>]\<rparr>)
                      | None \<Rightarrow> s\<lparr>srng := r1\<rparr>))
           | _ \<Rightarrow> s\<lparr>orders := markFilled i (orders s)\<rparr>)
      | PFP_to_PMP \<Rightarrow>
          (case (findFirm (oto ord) (firmsPMP s), findFirm (ofrom ord) (firmsPFP s)) of
             (Some jm, Some jp) \<Rightarrow>
               (let pmp = firmsPMP s ! jm; pfp = firmsPFP s ! jp in
                if js_or (inventory pmp) 0 \<ge> amount ord then
                  (let s1 = s\<lparr>firmsPMP := (firmsPMP s)
                                  [jm := pmp\<lparr>inventory := inventory pmp - amount ord\<rparr>],
                               firmsPFP := (firmsPFP s)
                                  [jp := pfp\<lparr>inventory := js_or (inventory pfp) 0 + amount ord\<rparr>],
                               orders := markFilled i (orders s),
                               logs := logs s @ [OrderFilled t i]\<rparr>
                   in case orig ord of
                        Some j \<Rightarrow> cascadeFill jp j s1
                      | None \<Rightarrow> s1)
                else s)
           | _ \<Rightarrow> s\<lparr>orders := markFilled i (orders s)\<rparr>))"

text \<open>The orders the loop visits: unfilled and due when the loop starts, in list order.\<close>

definition dueIndices :: "int \<Rightarrow> order list \<Rightarrow> nat list" where
  "dueIndices t ords = filter (\<lambda>i. \<not> filled (ords ! i) \<and> due (ords ! i) \<le> t) [0..<length ords]"

definition ordersPhase :: "state \<Rightarrow> state" where
  "ordersPhase s = fold processOrder (dueIndices (tick s) (orders s)) s"

section \<open>The tick: final-tier service, price, innovations\<close>

definition serveFirm :: "int \<Rightarrow> firm \<Rightarrow> firm \<times> real" where
  "serveFirm t f =
     (let possible = min (js_or (planned f) 0)
                         (min (js_or (inventory f) 0) (js_or (capacity f) 9999));
          produced = max 0 possible
      in (f\<lparr>inventory := js_or (inventory f) 0 - produced,
            history := history f @ [(t, produced)]\<rparr>, produced))"

fun serveLoop :: "int \<Rightarrow> firm list \<Rightarrow> firm list \<times> real" where
  "serveLoop t [] = ([], 0)"
| "serveLoop t (f # fs) =
     (let (f1, q) = serveFirm t f;
          (fs1, Q) = serveLoop t fs
      in (f1 # fs1, q + Q))"

definition priceGap :: "real \<Rightarrow> real \<Rightarrow> real" where
  "priceGap Qagg Qserved = (if Qagg = 0 then 0 else (Qagg - Qserved) / max 1 Qagg)"

definition adjustPrice :: "real \<Rightarrow> real \<Rightarrow> real \<Rightarrow> real" where
  "adjustPrice p Qagg Qserved = max pMin (p * (1 + pPriceAdjustGain * priceGap Qagg Qserved))"

definition tierFirms :: "tier \<Rightarrow> state \<Rightarrow> firm list" where
  "tierFirms lvl s =
     (case lvl of TierPBC \<Rightarrow> firmsPBC s | TierPFP \<Rightarrow> firmsPFP s | TierPMP \<Rightarrow> firmsPMP s)"

definition setTierFirms :: "tier \<Rightarrow> firm list \<Rightarrow> state \<Rightarrow> state" where
  "setTierFirms lvl fs s =
     (case lvl of TierPBC \<Rightarrow> s\<lparr>firmsPBC := fs\<rparr>
                | TierPFP \<Rightarrow> s\<lparr>firmsPFP := fs\<rparr>
                | TierPMP \<Rightarrow> s\<lparr>firmsPMP := fs\<rparr>)"

text \<open>\<open>levels[k]\<close> for \<open>levels = ["PBC", "PFP", "PMP"]\<close>.\<close>

definition levelAt :: "int \<Rightarrow> tier option" where
  "levelAt k =
     (if k = 0 then Some TierPBC else if k = 1 then Some TierPFP
      else if k = 2 then Some TierPMP else None)"

text \<open>
  Scheduling of a random innovation. The firm is read from a non-empty array at an index
  below its length, so the last branch, where no firm is found, is never taken.
\<close>

definition scheduleInnovation :: "state \<Rightarrow> state" where
  "scheduleInnovation s =
     (let (u, r1) = mulberry32 (srng s) in
      if u < probPerTick then
        (let (u2, r2) = mulberry32 r1 in
         case levelAt (math_floor (u2 * 3)) of
           None \<Rightarrow> s\<lparr>srng := r2\<rparr>
         | Some lvl \<Rightarrow>
             (let firms = tierFirms lvl s in
              if length firms > 0 then
                (let (u3, r3) = mulberry32 r2 in
                 case pickFirm firms u3 of
                   Some f \<Rightarrow>
                     (let (cm, r4) = randRange r3 0.92 0.99;
                          (tm, r5) = randRange r4 1.02 1.25;
                          (ad, r6) = randRange r5 10 60
                      in s\<lparr>srng := r6,
                           innovations := innovations s @
                             [\<lparr>ifirm = fid f, ilevel = lvl, costMul = cm, tfpMul = tm,
                               scheduleAt = tick s, adoptAt = tick s + math_round ad,
                               adopted = False\<rparr>]\<rparr>)
                 | None \<Rightarrow> s\<lparr>srng := r3\<rparr>)
              else s\<lparr>srng := r2\<rparr>))
      else s\<lparr>srng := r1\<rparr>)"

definition adoptFirm :: "innovation \<Rightarrow> firm \<Rightarrow> firm" where
  "adoptFirm iv f =
     f\<lparr>marginalCost := max 0.01 (marginalCost f * costMul iv),
       tfpA := js_or (tfpA f) 1 * tfpMul iv\<rparr>"

text \<open>
  The adoption loop visits the innovations that are not adopted and whose adoption tick
  has come; the others are left as they are. It returns the innovations and the state.
\<close>

fun adoptLoop :: "innovation list \<Rightarrow> state \<Rightarrow> innovation list \<times> state" where
  "adoptLoop [] s = ([], s)"
| "adoptLoop (iv # ivs) s =
     (if \<not> adopted iv \<and> adoptAt iv \<le> tick s then
        (case findFirm (ifirm iv) (tierFirms (ilevel iv) s) of
           Some j \<Rightarrow>
             (let fs = tierFirms (ilevel iv) s;
                  f = fs ! j;
                  s1 = (setTierFirms (ilevel iv) (fs[j := adoptFirm iv f]) s)
                         \<lparr>logs := logs s @ [InnovationAdopted (tick s) (ilevel iv) (fid f)]\<rparr>;
                  (ivs1, s2) = adoptLoop ivs s1
              in (iv\<lparr>adopted := True\<rparr> # ivs1, s2))
         | None \<Rightarrow> (let (ivs1, s2) = adoptLoop ivs s in (iv # ivs1, s2)))
      else (let (ivs1, s2) = adoptLoop ivs s in (iv # ivs1, s2)))"

definition adoptionPhase :: "state \<Rightarrow> state" where
  "adoptionPhase s =
     (if length (innovations s) > 0 then
        (let (ivs, s1) = adoptLoop (innovations s) s in s1\<lparr>innovations := ivs\<rparr>)
      else s)"

section \<open>The tick\<close>

definition beginTick :: "inputs \<Rightarrow> state \<Rightarrow> state" where
  "beginTick inp s =
     (let s1 = s\<lparr>tick := tick s + 1\<rparr> in
      case priceMode inp of
        Manual \<Rightarrow> s1\<lparr>price := max pMin (manualPrice inp)\<rparr>
      | Auto \<Rightarrow> s1)"

definition consumersPhase :: "inputs \<Rightarrow> real \<Rightarrow> state \<Rightarrow> state \<times> real" where
  "consumersPhase inp prevPrice s =
     (let (cs, Qagg, r) =
            consumersLoop (tick s) prevPrice (price s) (feedbackStrength (phaseIdx inp))
              (consumers s) (srng s)
      in (s\<lparr>consumers := cs, srng := r\<rparr>, Qagg))"

definition planningPhase :: "inputs \<Rightarrow> real \<Rightarrow> state \<Rightarrow> state outcome" where
  "planningPhase inp Qagg s =
     (let sumA = max 0.000001 (\<Sum>f\<leftarrow>firmsPBC s. tfpA f * js_or (capacity f) 1) in
      case planLoop inp (tick s) (price s) Qagg sumA (firmsPFP s) (firmsPBC s) (orders s) (srng s) of
        Done (fs, ords, r) \<Rightarrow> Done (s\<lparr>firmsPBC := fs, orders := ords, srng := r\<rparr>)
      | Threw (fs, ords, r) \<Rightarrow> Threw (s\<lparr>firmsPBC := fs, orders := ords, srng := r\<rparr>))"

definition productionPhase :: "state \<Rightarrow> state" where
  "productionPhase s =
     (let (pmps, r1) = produceLoop (tick s) (firmsPMP s) (srng s);
          (pfps, r2) = produceLoop (tick s) (firmsPFP s) r1
      in s\<lparr>firmsPMP := pmps, firmsPFP := pfps, srng := r2\<rparr>)"

definition servePhase :: "state \<Rightarrow> state \<times> real" where
  "servePhase s = (let (fs, Qserved) = serveLoop (tick s) (firmsPBC s) in (s\<lparr>firmsPBC := fs\<rparr>, Qserved))"

definition pricePhase :: "inputs \<Rightarrow> real \<Rightarrow> real \<Rightarrow> state \<Rightarrow> state" where
  "pricePhase inp Qagg Qserved s =
     (case priceMode inp of
        Auto \<Rightarrow> s\<lparr>price := adjustPrice (price s) Qagg Qserved\<rparr>
      | Manual \<Rightarrow> s)"

definition mkPoint :: "state \<Rightarrow> real \<Rightarrow> real \<Rightarrow> point" where
  "mkPoint s Qagg Qserved =
     \<lparr>pt_t = tick s,
      pt_price = toFixed 4 (price s),
      qDemand = toFixed 3 Qagg,
      qServed = toFixed 3 Qserved,
      efficiency = toFixed 3 (Qserved / max 1 Qagg)\<rparr>"

definition trimLogs :: "state \<Rightarrow> state" where
  "trimLogs s =
     (if length (logs s) > 5000 then s\<lparr>logs := drop (length (logs s) - 2000) (logs s)\<rparr> else s)"

text \<open>
  The state when the final tier is about to serve, with the aggregate demand of the tick;
  \<open>Threw\<close> when the planner's function raised during planning.
\<close>

definition beforeServe :: "inputs \<Rightarrow> state \<Rightarrow> (state \<times> real) outcome" where
  "beforeServe inp s =
     (let s1 = beginTick inp s;
          (s2, Qagg) = consumersPhase inp (price s) s1
      in case planningPhase inp Qagg s2 of
           Threw s3 \<Rightarrow> Threw (s3, Qagg)
         | Done s3 \<Rightarrow> Done (ordersPhase (productionPhase s3), Qagg))"

text \<open>
  \<open>simTick\<close>. An exception leaves the function at once: the simulation object keeps what
  was written so far and no point is appended (\<open>Aborted\<close>).
\<close>

definition simTick :: "inputs \<Rightarrow> state \<Rightarrow> tick_result" where
  "simTick inp s =
     (case beforeServe inp s of
        Threw (s3, Qagg) \<Rightarrow> Aborted s3
      | Done (s5, Qagg) \<Rightarrow>
          (let (s6, Qserved) = servePhase s5;
               s7 = pricePhase inp Qagg Qserved s6;
               s8 = adoptionPhase (scheduleInnovation s7)
           in Completed (trimLogs s8) (mkPoint s8 Qagg Qserved)))"

text \<open>
  A run: one tick per element of the input sequence, from a given state. The interval
  timer catches an exception and goes on with the next tick.
\<close>

fun runTicks :: "inputs list \<Rightarrow> state \<Rightarrow> point list \<times> state" where
  "runTicks [] s = ([], s)"
| "runTicks (inp # inps) s =
     (case simTick inp s of
        Completed s1 pt \<Rightarrow> (let (pts, s2) = runTicks inps s1 in (pt # pts, s2))
      | Aborted s1 \<Rightarrow> runTicks inps s1)"

section \<open>Initialisation\<close>

definition makeConsumer :: "rng \<Rightarrow> consumer \<times> rng" where
  "makeConsumer r =
     (let (typeRand, r1) = mulberry32 r;
          ty = (if typeRand < 0.6 then Linear else if typeRand < 0.85 then Log
                else if typeRand < 0.98 then Exp else Poly);
          (a1, r2) = randRange r1 5 200;
          (b1, r3) = resampleB r2;
          (nc, r4) = randRange r3 0 50;
          (ti, r5) = randRange r4 30 90
      in (\<lparr>ctype = ty, coef_a = a1, coef_b = b1, nextUpdateAt = math_round ti,
            lastUpdate = 0, nextChange = math_floor nc\<rparr>, r5))"

fun makeConsumers :: "nat \<Rightarrow> rng \<Rightarrow> consumer list \<times> rng" where
  "makeConsumers 0 r = ([], r)"
| "makeConsumers (Suc k) r =
     (let (c, r1) = makeConsumer r;
          (cs, r2) = makeConsumers k r1
      in (c # cs, r2))"

text \<open>
  \<open>makeFirms i k\<close> creates the firms \<open>i, i + 1, ..., i + k - 1\<close> of a tier; the capacity
  and the marginal cost are drawn from the tier's ranges.
\<close>

fun makeFirms :: "nat \<Rightarrow> nat \<Rightarrow> real \<times> real \<Rightarrow> real \<times> real \<Rightarrow> rng \<Rightarrow> firm list \<times> rng" where
  "makeFirms i 0 capR mcR r = ([], r)"
| "makeFirms i (Suc k) capR mcR r =
     (let (A1, r1) = randRange r 0.8 1.3;
          (cap, r2) = randRange r1 (fst capR) (snd capR);
          (mc, r3) = randRange r2 (fst mcR) (snd mcR);
          (fs, r4) = makeFirms (Suc i) k capR mcR r3
      in (\<lparr>fid = i, tfpA = A1, capacity = cap, marginalCost = mc, inventory = 0,
            planned = 0, history = []\<rparr> # fs, r4))"

text \<open>
  The loop that approximates the initial price: at most \<open>k\<close> further iterations, each a
  step of 5 percent towards the balance of demand and supply.
\<close>

fun calibrate :: "nat \<Rightarrow> consumer list \<Rightarrow> firm list \<Rightarrow> real \<Rightarrow> rng \<Rightarrow> real \<times> rng" where
  "calibrate 0 cs pbcs p r = (p, r)"
| "calibrate (Suc k) cs pbcs p r =
     (let (Qagg, r1) = sumConsumerDemand cs p r;
          oferta = max 1 (\<Sum>f\<leftarrow>pbcs. js_or (capacity f) 0)
      in if \<bar>Qagg - oferta\<bar> < 0.01 * max 1 oferta then (p, r1)
         else if Qagg > oferta then calibrate k cs pbcs (p * 1.05) r1
         else calibrate k cs pbcs (p * 0.95) r1)"

definition initSimulation :: "int \<Rightarrow> state" where
  "initSimulation newSeed =
     (let r0 = word_of_int newSeed;
          (cs, r1) = makeConsumers consumersN r0;
          (n1, r2) = randRange r1 3 6;
          (pbcs, r3) = makeFirms 0 (nat (math_round n1)) (10, 50) (0.2, 1.0) r2;
          (n2, r4) = randRange r3 3 6;
          (pfps, r5) = makeFirms 0 (nat (math_round n2)) (10, 80) (0.1, 0.8) r4;
          (n3, r6) = randRange r5 2 4;
          (pmps, r7) = makeFirms 0 (nat (math_round n3)) (30, 140) (0.05, 0.6) r6;
          (p, r8) = calibrate 40 cs pbcs p0_default r7
      in \<lparr>tick = 0, seed = newSeed, srng = r8, price = p, consumers = cs,
           firmsPBC = pbcs, firmsPFP = pfps, firmsPMP = pmps,
           orders = [], logs = [], innovations = []\<rparr>)"

text \<open>What the oracle reads: the noise-free demand of the consumers at a price.\<close>

definition oracleDemandAt :: "consumer list \<Rightarrow> real \<Rightarrow> real" where
  "oracleDemandAt cs p =
     (\<Sum>c\<leftarrow>cs. case ctype c of
                 Linear \<Rightarrow> max 0 (coef_a c - coef_b c * p)
               | Log \<Rightarrow> max 0 (coef_a c - coef_b c * ln (1 + max 0 p))
               | Exp \<Rightarrow> max 0 (coef_a c * exp (- coef_b c * p))
               | Poly \<Rightarrow> (let cc = max 0.001 (coef_b c * 0.01)
                          in max 0 (coef_a c - coef_b c * p - cc * p * p)))"

section \<open>Observations of a tick and of a run\<close>

text \<open>
  The aggregate demand \<open>Qagg\<close> and the served quantity \<open>Qserved\<close> that a tick computes,
  before they are rounded into the series point.
\<close>

definition tickDemand :: "inputs \<Rightarrow> state \<Rightarrow> real" where
  "tickDemand inp s = snd (consumersPhase inp (price s) (beginTick inp s))"

definition tickServed :: "inputs \<Rightarrow> state \<Rightarrow> real" where
  "tickServed inp s =
     (case beforeServe inp s of Done (s5, Qagg) \<Rightarrow> snd (servePhase s5) | Threw x \<Rightarrow> 0)"

definition completed :: "tick_result \<Rightarrow> bool" where
  "completed res = (case res of Completed s pt \<Rightarrow> True | Aborted s \<Rightarrow> False)"

text \<open>The inputs of a session in which the user touches nothing.\<close>

definition autoInputs :: inputs where
  "autoInputs = \<lparr>priceMode = Auto, manualPrice = 1, userDemandFn = None, phaseIdx = PhaseA\<rparr>"


text \<open>A planner's demand function that throws, and a session in manual price mode.\<close>

definition throwingInputs :: inputs where
  "throwingInputs = \<lparr>priceMode = Auto, manualPrice = 1, userDemandFn = Some (\<lambda>p. Throws),
                       phaseIdx = PhaseA\<rparr>"

definition manualInputs :: "real \<Rightarrow> inputs" where
  "manualInputs v = \<lparr>priceMode = Manual, manualPrice = v, userDemandFn = None, phaseIdx = PhaseA\<rparr>"

section \<open>Well-formed states and reachable states\<close>











text \<open>
  The calibration scenario: 350 linear consumers with \<open>a = 120\<close>, \<open>b = 6\<close> and a single
  final-tier firm of capacity 1000.
\<close>

definition scenarioConsumers :: "consumer list" where
  "scenarioConsumers =
     replicate 350 \<lparr>ctype = Linear, coef_a = 120, coef_b = 6, nextUpdateAt = 30,
                    lastUpdate = 0, nextChange = 0\<rparr>"

definition scenarioFirms :: "firm list" where
  "scenarioFirms = [\<lparr>fid = 0, tfpA = 1, capacity = 1000, marginalCost = 1 / 2, inventory = 0,
                     planned = 0, history = []\<rparr>]"



text \<open>
  The shortage cascade: a final-tier firm with capacity 0 and no stock, an intermediate and
  a raw firm without stock, and an order of the final firm that falls due at tick 6.
\<close>

definition cascadeState :: state where
  "cascadeState = \<lparr>tick = 5, seed = 12345, srng = 12345, price = 1, consumers = [],
     firmsPBC = [\<lparr>fid = 0, tfpA = 1, capacity = 0, marginalCost = 1 / 2, inventory = 0,
                  planned = 0, history = []\<rparr>],
     firmsPFP = [\<lparr>fid = 0, tfpA = 1, capacity = 40, marginalCost = 1 / 2, inventory = 0,
                  planned = 0, history = []\<rparr>],
     firmsPMP = [\<lparr>fid = 0, tfpA = 1, capacity = 60, marginalCost = 1 / 2, inventory = 0,
                  planned = 0, history = []\<rparr>],
     orders = [\<lparr>level = PBC_to_PFP, ofrom = 0, oto = 0, amount = 1000, due = 6,
                filled = False, orig = None\<rparr>],
     logs = [], innovations = []\<rparr>"

section \<open>What a run depends on\<close>






section \<open>Properties of the least-squares fit\<close>







section \<open>The random source and the frame of each phase\<close>

lemma unit_fraction:
  "n < (4294967296::nat) \<Longrightarrow> 0 \<le> real n / 4294967296 \<and> real n / 4294967296 < 1"
  by simp

lemma unat32_less: "unat (w::32 word) < 4294967296"
  using unsigned_less [of w] by simp

lemma mulberry32_range: "0 \<le> fst (mulberry32 r) \<and> fst (mulberry32 r) < 1"
proof -
  obtain w :: "32 word" where w: "fst (mulberry32 r) = real (unat w) / 4294967296"
    by (simp add: mulberry32_def Let_def)
  show ?thesis
    unfolding w by (rule unit_fraction) (rule unat32_less)
qed

lemma randRange_bounds:
  "lo \<le> hi \<Longrightarrow> lo \<le> fst (randRange r lo hi) \<and> fst (randRange r lo hi) \<le> hi"
proof -
  assume le: "lo \<le> hi"
  define u where "u = fst (mulberry32 r)"
  have u: "0 \<le> u" "u < 1" using mulberry32_range [of r] by (simp_all add: u_def)
  have "(hi - lo) * u \<le> (hi - lo) * 1"
    using le u by (intro mult_left_mono) auto
  moreover have "0 \<le> (hi - lo) * u" using le u by simp
  ultimately show ?thesis
    by (simp add: randRange_def case_prod_beta u_def)
qed

lemma price_consumersPhase [simp]: "price (fst (consumersPhase inp pp s)) = price s"
  and tick_consumersPhase [simp]: "tick (fst (consumersPhase inp pp s)) = tick s"
  by (simp_all add: consumersPhase_def case_prod_beta)

lemma planningPhase_frame:
  "planningPhase inp Q s = Done s' \<or> planningPhase inp Q s = Threw s' \<Longrightarrow>
   price s' = price s \<and> tick s' = tick s \<and> firmsPFP s' = firmsPFP s \<and> firmsPMP s' = firmsPMP s
   \<and> innovations s' = innovations s \<and> logs s' = logs s \<and> consumers s' = consumers s \<and> seed s' = seed s"
  by (auto simp: planningPhase_def Let_def split: outcome.splits)

lemma productionPhase_frame [simp]:
  "price (productionPhase s) = price s" "tick (productionPhase s) = tick s"
  "firmsPBC (productionPhase s) = firmsPBC s" "orders (productionPhase s) = orders s"
  "innovations (productionPhase s) = innovations s" "logs (productionPhase s) = logs s"
  by (simp_all add: productionPhase_def case_prod_beta)

lemma cascadeFill_frame [simp]:
  "price (cascadeFill jp j s) = price s" "tick (cascadeFill jp j s) = tick s"
  "innovations (cascadeFill jp j s) = innovations s"
  "firmsPMP (cascadeFill jp j s) = firmsPMP s" "logs (cascadeFill jp j s) = logs s"
  "srng (cascadeFill jp j s) = srng s"
  by (simp_all add: cascadeFill_def Let_def split: option.splits)

lemma processOrder_frame [simp]:
  "price (processOrder i s) = price s" "tick (processOrder i s) = tick s"
  "innovations (processOrder i s) = innovations s"
  by (simp_all add: processOrder_def Let_def case_prod_beta split: order_level.splits option.splits)

lemma fold_processOrder_frame [simp]:
  "price (fold processOrder is s) = price s" "tick (fold processOrder is s) = tick s"
  "innovations (fold processOrder is s) = innovations s"
  by (induction "is" arbitrary: s) simp_all

lemma ordersPhase_frame [simp]:
  "price (ordersPhase s) = price s" "tick (ordersPhase s) = tick s"
  "innovations (ordersPhase s) = innovations s"
  by (simp_all add: ordersPhase_def)

lemma servePhase_frame [simp]:
  "price (fst (servePhase s)) = price s" "tick (fst (servePhase s)) = tick s"
  "innovations (fst (servePhase s)) = innovations s" "orders (fst (servePhase s)) = orders s"
  "firmsPFP (fst (servePhase s)) = firmsPFP s" "firmsPMP (fst (servePhase s)) = firmsPMP s"
  by (simp_all add: servePhase_def case_prod_beta)

lemma scheduleInnovation_frame [simp]:
  "price (scheduleInnovation s) = price s" "tick (scheduleInnovation s) = tick s"
  "firmsPBC (scheduleInnovation s) = firmsPBC s" "firmsPFP (scheduleInnovation s) = firmsPFP s"
  "firmsPMP (scheduleInnovation s) = firmsPMP s" "orders (scheduleInnovation s) = orders s"
  by (simp_all add: scheduleInnovation_def Let_def case_prod_beta split: option.splits)

lemma setTierFirms_frame [simp]:
  "price (setTierFirms l fs s) = price s" "tick (setTierFirms l fs s) = tick s"
  "orders (setTierFirms l fs s) = orders s"
  by (simp_all add: setTierFirms_def split: tier.splits)

lemma adoptLoop_frame [simp]:
  "price (snd (adoptLoop ivs s)) = price s" "tick (snd (adoptLoop ivs s)) = tick s"
  "orders (snd (adoptLoop ivs s)) = orders s"
  by (induction ivs arbitrary: s) (simp_all add: Let_def case_prod_beta split: option.splits)

lemma adoptionPhase_frame [simp]:
  "price (adoptionPhase s) = price s" "tick (adoptionPhase s) = tick s"
  "orders (adoptionPhase s) = orders s"
  by (simp_all add: adoptionPhase_def case_prod_beta)

lemma trimLogs_frame [simp]:
  "price (trimLogs s) = price s" "tick (trimLogs s) = tick s" "orders (trimLogs s) = orders s"
  "firmsPBC (trimLogs s) = firmsPBC s" "firmsPFP (trimLogs s) = firmsPFP s"
  "firmsPMP (trimLogs s) = firmsPMP s" "innovations (trimLogs s) = innovations s"
  by (simp_all add: trimLogs_def)

section \<open>The structure of a tick\<close>

lemma beforeServe_Done:
  assumes "beforeServe inp s = Done (s5, Q)"
  shows "Q = tickDemand inp s \<and> tick s5 = tick s + 1
         \<and> price s5 = (case priceMode inp of Manual \<Rightarrow> max pMin (manualPrice inp) | Auto \<Rightarrow> price s)"
proof -
  define s2 where "s2 = fst (consumersPhase inp (price s) (beginTick inp s))"
  from assms obtain s3 where p: "planningPhase inp (tickDemand inp s) s2 = Done s3"
    and s5: "s5 = ordersPhase (productionPhase s3)" and Q: "Q = tickDemand inp s"
    by (auto simp: beforeServe_def tickDemand_def s2_def Let_def case_prod_beta split: outcome.splits)
  have "price s3 = price s2 \<and> tick s3 = tick s2"
    using planningPhase_frame [of inp "tickDemand inp s" s2 s3] p by simp
  then show ?thesis
    by (simp add: s5 Q s2_def beginTick_def Let_def split: price_mode.splits)
qed

lemma simTick_Completed:
  assumes "simTick inp s = Completed s' pt"
  obtains s5 where "beforeServe inp s = Done (s5, tickDemand inp s)"
    and "s' = trimLogs (adoptionPhase (scheduleInnovation
              (pricePhase inp (tickDemand inp s) (tickServed inp s) (fst (servePhase s5)))))"
    and "pt = mkPoint (adoptionPhase (scheduleInnovation
              (pricePhase inp (tickDemand inp s) (tickServed inp s) (fst (servePhase s5)))))
              (tickDemand inp s) (tickServed inp s)"
proof -
  from assms obtain s5 Q where b: "beforeServe inp s = Done (s5, Q)"
    by (auto simp: simTick_def split: outcome.splits)
  then have Q: "Q = tickDemand inp s" using beforeServe_Done by blast
  have sv: "tickServed inp s = snd (servePhase s5)" by (simp add: tickServed_def b)
  show thesis
    using assms b by (intro that [of s5]) (simp_all add: simTick_def Q sv Let_def case_prod_beta)
qed

lemma pricePhase_other [simp]:
  "tick (pricePhase inp Q V s) = tick s"
  by (simp add: pricePhase_def split: price_mode.splits)

lemma simTick_price:
  assumes "simTick inp s = Completed s' pt"
  shows "price s' = (case priceMode inp of
                       Manual \<Rightarrow> max pMin (manualPrice inp)
                     | Auto \<Rightarrow> adjustPrice (price s) (tickDemand inp s) (tickServed inp s))"
    and "pt_price pt = toFixed 4 (price s')"
    and "qDemand pt = toFixed 3 (tickDemand inp s)"
    and "qServed pt = toFixed 3 (tickServed inp s)"
    and "efficiency pt = toFixed 3 (tickServed inp s / max 1 (tickDemand inp s))"
    and "pt_t pt = tick s + 1" and "tick s' = tick s + 1"
proof -
  from assms obtain s5 where b: "beforeServe inp s = Done (s5, tickDemand inp s)"
    and s': "s' = trimLogs (adoptionPhase (scheduleInnovation
              (pricePhase inp (tickDemand inp s) (tickServed inp s) (fst (servePhase s5)))))"
    and pt: "pt = mkPoint (adoptionPhase (scheduleInnovation
              (pricePhase inp (tickDemand inp s) (tickServed inp s) (fst (servePhase s5)))))
              (tickDemand inp s) (tickServed inp s)"
    by (rule simTick_Completed)
  note bs = beforeServe_Done [OF b]
  show "price s' = (case priceMode inp of
                       Manual \<Rightarrow> max pMin (manualPrice inp)
                     | Auto \<Rightarrow> adjustPrice (price s) (tickDemand inp s) (tickServed inp s))"
    using bs by (simp add: s' pricePhase_def split: price_mode.splits)
  show "pt_price pt = toFixed 4 (price s')" by (simp add: s' pt mkPoint_def)
  show "qDemand pt = toFixed 3 (tickDemand inp s)" by (simp add: pt mkPoint_def)
  show "qServed pt = toFixed 3 (tickServed inp s)" by (simp add: pt mkPoint_def)
  show "efficiency pt = toFixed 3 (tickServed inp s / max 1 (tickDemand inp s))"
    by (simp add: pt mkPoint_def)
  show "pt_t pt = tick s + 1" using bs by (simp add: pt mkPoint_def)
  show "tick s' = tick s + 1" using bs by (simp add: s')
qed


lemmas tick_defs = simTick_def beforeServe_def beginTick_def consumersPhase_def planningPhase_def
  productionPhase_def ordersPhase_def servePhase_def pricePhase_def scheduleInnovation_def
  adoptionPhase_def trimLogs_def mkPoint_def consumerStep_def regimeChange_def scheduledUpdate_def
  consumerReact_def computeConsumerDemand_def perceivedFn_def planFirm_def pickFirm_def
  produceFirm_def serveFirm_def dueIndices_def processOrder_def cascadeFill_def findFirm_def
  markFilled_def adjustPrice_def priceGap_def levelAt_def tierFirms_def setTierFirms_def adoptFirm_def
  randRange_def mulberry32_def imul_def js_or_def math_round_def math_floor_def toFixed_def
  pMin_def pPriceAdjustGain_def probPerTick_def resampleB_def

lemmas eval_cong = let_weak_cong if_weak_cong prod.case_cong_weak option.case_cong_weak
  tick_result.case_cong_weak outcome.case_cong_weak order_level.case_cong_weak


section \<open>The automatic price update\<close>



section \<open>Completion and abortion of a tick\<close>

lemma planLoop_auto:
  "userDemandFn inp = None \<Longrightarrow> \<exists>x. planLoop inp t p Q sumA pfps fs ords r = Done x"
proof (induction fs arbitrary: ords r)
  case Nil
  then show ?case by simp
next
  case (Cons f fs)
  have "planFirm inp t p Q sumA pfps f ords r \<noteq> None"
    using Cons.prems
    by (simp add: planFirm_def perceivedFn_def Let_def case_prod_beta split: option.splits)
  then obtain f1 o1 r1 where pf: "planFirm inp t p Q sumA pfps f ords r = Some (f1, o1, r1)"
    by auto
  from Cons.IH [OF Cons.prems, of o1 r1] show ?case
    by (auto simp: pf)
qed

lemma simTick_completes:
  "userDemandFn inp = None \<Longrightarrow> completed (simTick inp s)"
proof -
  assume a: "userDemandFn inp = None"
  have "\<exists>x. planningPhase inp Q s2 = Done x" for Q s2
  proof -
    obtain x where "planLoop inp (tick s2) (price s2) Q
        (max 0.000001 (\<Sum>f\<leftarrow>firmsPBC s2. tfpA f * js_or (capacity f) 1))
        (firmsPFP s2) (firmsPBC s2) (orders s2) (srng s2) = Done x"
      using planLoop_auto [OF a] by blast
    then show ?thesis
      by (cases x) (simp add: planningPhase_def Let_def)
  qed
  then have "\<exists>x. beforeServe inp s = Done x"
    by (simp add: beforeServe_def Let_def case_prod_beta) (metis outcome.simps(5))
  then show ?thesis
    by (auto simp: simTick_def completed_def Let_def case_prod_beta)
qed

lemma planLoop_throws:
  assumes "userDemandFn inp = Some fn" and "fn p = Throws" and "fs \<noteq> []"
  shows "planLoop inp t p Q sumA pfps fs ords r = Threw (fs, ords, r)"
proof -
  obtain f fs' where fs: "fs = f # fs'" using assms(3) by (cases fs) auto
  have "planFirm inp t p Q sumA pfps f ords r = None"
    using assms(1,2) by (simp add: planFirm_def perceivedFn_def Let_def)
  then show ?thesis by (simp add: fs)
qed

lemma simTick_aborts:
  assumes fn: "userDemandFn inp = Some fn"
    and th: "fn (price (beginTick inp s)) = Throws"
    and ne: "firmsPBC s \<noteq> []"
  shows "simTick inp s = Aborted (fst (consumersPhase inp (price s) (beginTick inp s)))"
proof -
  define s2 where "s2 = fst (consumersPhase inp (price s) (beginTick inp s))"
  have p2: "price s2 = price (beginTick inp s)" by (simp add: s2_def)
  have f2: "firmsPBC s2 = firmsPBC s"
    by (simp add: s2_def consumersPhase_def case_prod_beta beginTick_def Let_def split: price_mode.splits)
  have "planningPhase inp Q s2 = Threw s2" for Q
    using planLoop_throws [OF fn, of "price s2" "firmsPBC s2"] th ne
    by (simp add: planningPhase_def Let_def p2 f2)
  then show ?thesis
    by (simp add: simTick_def beforeServe_def Let_def case_prod_beta s2_def)
qed

lemma simTick_Aborted_frame:
  assumes "simTick inp s = Aborted s'"
  shows "tick s' = tick s + 1 \<and> firmsPFP s' = firmsPFP s \<and> firmsPMP s' = firmsPMP s
         \<and> innovations s' = innovations s \<and> logs s' = logs s
         \<and> price s' = (case priceMode inp of Manual \<Rightarrow> max pMin (manualPrice inp) | Auto \<Rightarrow> price s)"
proof -
  define s2 where "s2 = fst (consumersPhase inp (price s) (beginTick inp s))"
  from assms obtain Q where p: "planningPhase inp Q s2 = Threw s'"
    by (auto simp: simTick_def beforeServe_def s2_def Let_def case_prod_beta split: outcome.splits)
  have "price s' = price s2 \<and> tick s' = tick s2 \<and> firmsPFP s' = firmsPFP s2 \<and> firmsPMP s' = firmsPMP s2
     \<and> innovations s' = innovations s2 \<and> logs s' = logs s2"
    using planningPhase_frame [of inp Q s2 s'] p by simp
  then show ?thesis
    by (simp add: s2_def consumersPhase_def case_prod_beta beginTick_def Let_def split: price_mode.splits)
qed

lemma makeFirms_length: "length (fst (makeFirms i k capR mcR r)) = k"
  by (induction k arbitrary: i r) (simp_all add: case_prod_beta Let_def)

lemma math_round_ge: "real_of_int k \<le> x \<Longrightarrow> k \<le> math_round x"
  by (simp add: math_round_def le_floor_iff)

lemma init_counts:
  "3 \<le> length (firmsPBC (initSimulation sd))" "3 \<le> length (firmsPFP (initSimulation sd))"
  "2 \<le> length (firmsPMP (initSimulation sd))"
proof -
  have r: "k \<le> nat (math_round (fst (randRange r (real k) hi)))" if "real k \<le> hi" for k r hi
  proof -
    have "real_of_int (int k) \<le> fst (randRange r (real k) hi)"
      using randRange_bounds [OF that, of r] by simp
    then have "int k \<le> math_round (fst (randRange r (real k) hi))"
      by (rule math_round_ge)
    then show ?thesis by simp
  qed
  show "3 \<le> length (firmsPBC (initSimulation sd))"
    using r [of 3 6] by (simp add: initSimulation_def Let_def case_prod_beta makeFirms_length)
  show "3 \<le> length (firmsPFP (initSimulation sd))"
    using r [of 3 6] by (simp add: initSimulation_def Let_def case_prod_beta makeFirms_length)
  show "2 \<le> length (firmsPMP (initSimulation sd))"
    using r [of 2 4] by (simp add: initSimulation_def Let_def case_prod_beta makeFirms_length)
qed

lemma toFixed_exact:
  assumes "0 \<le> x" and "x * 10 ^ d = real_of_int k"
  shows "toFixed d x = x"
proof -
  have "\<lfloor>real_of_int k + 1 / 2\<rfloor> = k" by linarith
  then have "real_of_int \<lfloor>x * 10 ^ d + 1 / 2\<rfloor> / 10 ^ d = x * 10 ^ d / 10 ^ d"
    using assms(2) by simp
  then show ?thesis using assms(1) by (simp add: toFixed_def)
qed

lemma simTick_cases:
  obtains (comp) s' pt where "simTick inp s = Completed s' pt"
        | (abort) s' where "simTick inp s = Aborted s'"
  by (cases "simTick inp s") auto

lemma runTicks_manual:
  assumes "list_all (\<lambda>inp. priceMode inp = Manual \<and> manualPrice inp = v) inps"
  shows "list_all (\<lambda>pt. pt_price pt = toFixed 4 (max pMin v)) (fst (runTicks inps s))
         \<and> (inps \<noteq> [] \<longrightarrow> price (snd (runTicks inps s)) = max pMin v)"
  using assms
proof (induction inps arbitrary: s)
  case Nil
  then show ?case by simp
next
  case (Cons inp inps)
  then have m: "priceMode inp = Manual" "manualPrice inp = v"
    and rest: "list_all (\<lambda>inp. priceMode inp = Manual \<and> manualPrice inp = v) inps"
    by simp_all
  show ?case
  proof (cases rule: simTick_cases [of inp s])
    case (comp s' pt)
    have p: "price s' = max pMin v" "pt_price pt = toFixed 4 (max pMin v)"
      using simTick_price(1,2) [OF comp] m by simp_all
    show ?thesis
      using Cons.IH [OF rest, of s'] p
      by (cases inps) (simp_all add: comp case_prod_beta)
  next
    case (abort s')
    have p: "price s' = max pMin v"
      using simTick_Aborted_frame [OF abort] m by simp
    show ?thesis
      using Cons.IH [OF rest, of s'] p
      by (cases inps) (simp_all add: abort)
  qed
qed

lemma runTicks_length:
  "list_all (\<lambda>inp. userDemandFn inp = None) inps \<Longrightarrow> length (fst (runTicks inps s)) = length inps"
proof (induction inps arbitrary: s)
  case Nil
  then show ?case by simp
next
  case (Cons inp inps)
  then have "completed (simTick inp s)" by (simp add: simTick_completes)
  then obtain s' pt where c: "simTick inp s = Completed s' pt"
    by (auto simp: completed_def split: tick_result.splits)
  show ?case using Cons by (simp add: c case_prod_beta)
qed

lemma list_all_eq_replicate:
  "list_all (\<lambda>x. f x = c) xs \<Longrightarrow> map f xs = replicate (length xs) c"
  by (induction xs) simp_all


section \<open>The manual price\<close>

text \<open>
  C4, as the code has it. While the price mode is manual with manual price \<open>v\<close>, every
  recorded price is \<open>max(pMin, v)\<close> rounded to four decimals by \<open>toFixed(4)\<close>, whatever
  the demand and the served quantity; the price held by the engine is \<open>max(pMin, v)\<close>
  itself; the recorded price equals it whenever it has at most four decimals.
\<close>

theorem manual_price_pinned:
  assumes "list_all (\<lambda>inp. priceMode inp = Manual \<and> manualPrice inp = v) inps"
  shows "map pt_price (fst (runTicks inps s))
           = replicate (length (fst (runTicks inps s))) (toFixed 4 (max pMin v))
         \<and> (inps \<noteq> [] \<longrightarrow> price (snd (runTicks inps s)) = max pMin v)
         \<and> (max pMin v * 10 ^ 4 = real_of_int k \<longrightarrow> toFixed 4 (max pMin v) = max pMin v)"
proof -
  have "0 \<le> max pMin v" by (simp add: pMin_def max_def)
  then show ?thesis
    using runTicks_manual [OF assms, of s] toFixed_exact [of "max pMin v" 4 k]
    by (simp add: list_all_eq_replicate)
qed

theorem manual_price_pinned_witness:
  "map pt_price (fst (runTicks [manualInputs 2.5, manualInputs 2.5] (initSimulation 12345)))
     = [2.5, 2.5]
   \<and> price (snd (runTicks [manualInputs 2.5, manualInputs 2.5] (initSimulation 12345))) = 2.5"
proof -
  have a: "list_all (\<lambda>inp. priceMode inp = Manual \<and> manualPrice inp = 2.5)
             [manualInputs 2.5, manualInputs 2.5]"
    by (simp add: manualInputs_def)
  have l: "length (fst (runTicks [manualInputs 2.5, manualInputs 2.5] (initSimulation 12345))) = 2"
    using runTicks_length [of "[manualInputs 2.5, manualInputs 2.5]" "initSimulation 12345"]
    by (simp add: manualInputs_def)
  have m: "max pMin 2.5 = 2.5" "max pMin 2.5 * 10 ^ 4 = real_of_int 25000"
    by (simp_all add: pMin_def)
  show ?thesis
    using manual_price_pinned [OF a, of "initSimulation 12345" 25000] l m
    by (simp add: numeral_2_eq_2)
qed


text \<open>
  The claim as stated asks for the recorded price to equal \<open>max(pMin, v)\<close> exactly.
  With \<open>v = 1.23456\<close>, from the initial state of seed 12345, the recorded price is 1.2346.
\<close>

theorem manual_price_counterexample:
  "map pt_price (fst (runTicks [manualInputs (123456 / 100000)] (initSimulation 12345)))
     = [12346 / 10000]
   \<and> max pMin (123456 / 100000) \<noteq> (12346 / 10000 :: real)"
proof -
  define v :: real where "v = 123456 / 100000"
  define pts where "pts = fst (runTicks [manualInputs v] (initSimulation 12345))"
  have a: "list_all (\<lambda>inp. priceMode inp = Manual \<and> manualPrice inp = v) [manualInputs v]"
    by (simp add: manualInputs_def)
  have l: "length pts = 1"
    unfolding pts_def
    using runTicks_length [of "[manualInputs v]" "initSimulation 12345"]
    by (simp add: manualInputs_def)
  have t: "toFixed 4 (max pMin v) = 12346 / 10000"
    by (simp add: toFixed_def pMin_def v_def)
  have "list_all (\<lambda>pt. pt_price pt = toFixed 4 (max pMin v)) pts"
    unfolding pts_def using runTicks_manual [OF a, of "initSimulation 12345"] by blast
  then have "map pt_price pts = replicate (length pts) (toFixed 4 (max pMin v))"
    by (rule list_all_eq_replicate)
  then have "map pt_price pts = [12346 / 10000]"
    unfolding l t by simp
  moreover have "max pMin v \<noteq> 12346 / 10000"
    by (simp add: pMin_def v_def)
  ultimately show ?thesis
    unfolding pts_def v_def by blast
qed


section \<open>A planner's function that throws\<close>

text \<open>
  C8. The claim says that a throwing demand function counts as zero demand and the tick
  completes. In the code the call is not guarded: from the initial state of seed 12345
  the tick stops in the planning loop, no point is recorded, no order is placed, and the
  tick counter has already advanced.
\<close>

theorem throwing_planner_aborts_tick:
  "\<not> completed (simTick throwingInputs (initSimulation 12345))
   \<and> fst (runTicks [throwingInputs] (initSimulation 12345)) = []
   \<and> orders (snd (runTicks [throwingInputs] (initSimulation 12345))) = []
   \<and> tick (snd (runTicks [throwingInputs] (initSimulation 12345))) = 1"
proof -
  define s0 where "s0 = initSimulation 12345"
  define s2 where "s2 = fst (consumersPhase throwingInputs (price s0) (beginTick throwingInputs s0))"
  have ne: "firmsPBC s0 \<noteq> []"
    unfolding s0_def using init_counts(1) [of 12345] by auto
  have fn: "userDemandFn throwingInputs = Some (\<lambda>p. Throws)"
    by (simp add: throwingInputs_def)
  have ab: "simTick throwingInputs s0 = Aborted s2"
    unfolding s2_def using simTick_aborts [OF fn _ ne] by simp
  have t0: "tick s0 = 0" "orders s0 = []"
    by (simp_all add: s0_def initSimulation_def Let_def case_prod_beta)
  have s2: "tick s2 = 1" "orders s2 = []"
    using t0 by (simp_all add: s2_def consumersPhase_def case_prod_beta beginTick_def
        throwingInputs_def Let_def)
  have "\<not> completed (simTick throwingInputs s0)
      \<and> fst (runTicks [throwingInputs] s0) = []
      \<and> orders (snd (runTicks [throwingInputs] s0)) = []
      \<and> tick (snd (runTicks [throwingInputs] s0)) = 1"
    by (simp add: ab completed_def s2)
  then show ?thesis unfolding s0_def .
qed

section \<open>The invariant of the engine\<close>



lemma list_all_nth: "list_all P xs \<Longrightarrow> j < length xs \<Longrightarrow> P (xs ! j)"
  by (simp add: list_all_length)


lemma u_pos: "0 \<le> fst (mulberry32 r)" and u_lt1: "fst (mulberry32 r) < 1"
  using mulberry32_range [of r] by simp_all










lemma markFilled_length [simp]: "length (markFilled i ords) = length ords"
  by (simp add: markFilled_def)


lemma pickFirm_Some: "pickFirm fs u = Some f \<Longrightarrow> f \<in> set fs"
  by (auto simp: pickFirm_def Let_def split: if_splits)

































section \<open>Non-negativity\<close>



section \<open>What the final tier serves\<close>



lemma map_update_same [simp]: "(map g fs)[j := g (fs ! j)] = map g fs"
  by (metis list_update_id map_update)



lemma pricePhase_firms [simp]: "firmsPBC (pricePhase inp Q V s) = firmsPBC s"
  by (simp add: pricePhase_def split: price_mode.splits)


lemma cascadeFill_lengthPBC [simp]: "length (firmsPBC (cascadeFill jp j s)) = length (firmsPBC s)"
  by (simp add: cascadeFill_def Let_def split: option.splits)

lemma processOrder_lengthPBC [simp]: "length (firmsPBC (processOrder i s)) = length (firmsPBC s)"
  by (simp add: processOrder_def Let_def case_prod_beta split: order_level.splits option.splits)

lemma ordersPhase_lengthPBC [simp]: "length (firmsPBC (ordersPhase s)) = length (firmsPBC s)"
proof -
  have "length (firmsPBC (fold processOrder is s)) = length (firmsPBC s)" for "is"
    by (induction "is" arbitrary: s) simp_all
  then show ?thesis by (simp add: ordersPhase_def)
qed





section \<open>The calibration of the initial price\<close>

lemma linear_demand_lower:
  assumes "ctype c = Linear" and "coef_a c = 120" and "coef_b c = 6" and "p \<le> 20"
  shows "0.95 * (120 - 6 * p) \<le> fst (computeConsumerDemand c p r)"
proof -
  define u where "u = fst (mulberry32 r)"
  have u: "0 \<le> u" using u_pos [of r] by (simp add: u_def)
  have q: "0 \<le> 120 - 6 * p" using assms(4) by simp
  have "1 + (u - 0.5) * 2 * 0.05 = 0.95 + 0.1 * u" by (simp add: field_simps)
  then have "0.95 \<le> 1 + (u - 0.5) * 2 * 0.05" using u by simp
  then have "(120 - 6 * p) * 0.95 \<le> (120 - 6 * p) * (1 + (u - 0.5) * 2 * 0.05)"
    using q by (rule mult_left_mono)
  then show ?thesis
    using assms(1,2,3) by (simp add: computeConsumerDemand_def case_prod_beta Let_def u_def max_def)
qed

lemma sum_demand_lower:
  assumes "\<forall>c \<in> set cs. ctype c = Linear \<and> coef_a c = 120 \<and> coef_b c = 6" and "p \<le> 20"
  shows "real (length cs) * (0.95 * (120 - 6 * p)) \<le> fst (sumConsumerDemand cs p r)"
  using assms(1)
proof (induction cs arbitrary: r)
  case Nil
  then show ?case by simp
next
  case (Cons c cs)
  define b where "b = 0.95 * (120 - 6 * p)"
  define q1 where "q1 = fst (computeConsumerDemand c p r)"
  define Q where "Q = fst (sumConsumerDemand cs p (snd (computeConsumerDemand c p r)))"
  have c: "ctype c = Linear" "coef_a c = 120" "coef_b c = 6"
    and rest: "\<forall>c \<in> set cs. ctype c = Linear \<and> coef_a c = 120 \<and> coef_b c = 6"
    using Cons.prems by simp_all
  have 1: "b \<le> q1"
    unfolding b_def q1_def by (rule linear_demand_lower [OF c assms(2)])
  have 2: "real (length cs) * b \<le> Q"
    unfolding b_def Q_def by (rule Cons.IH [OF rest])
  have eq: "fst (sumConsumerDemand (c # cs) p r) = q1 + Q"
    by (simp add: case_prod_beta q1_def Q_def)
  have "real (length (c # cs)) * b = b + real (length cs) * b"
    by (simp add: distrib_right)
  then show ?case
    unfolding b_def [symmetric] eq using 1 2 by linarith
qed

lemma scenario_demand_lower:
  assumes "p \<le> 19"
  shows "1010 < fst (sumConsumerDemand scenarioConsumers p r)"
proof -
  have "real (length scenarioConsumers) * (0.95 * (120 - 6 * p))
          \<le> fst (sumConsumerDemand scenarioConsumers p r)"
    using assms by (intro sum_demand_lower) (simp_all add: scenarioConsumers_def)
  moreover have "1010 < real (length scenarioConsumers) * (0.95 * (120 - 6 * p))"
    using assms by (simp add: scenarioConsumers_def)
  ultimately show ?thesis by linarith
qed

lemma calibrate_scenario_step:
  "0 \<le> p \<Longrightarrow> p * 1.05 ^ k \<le> 19 \<Longrightarrow>
   fst (calibrate k scenarioConsumers scenarioFirms p r) = p * 1.05 ^ k"
proof (induction k arbitrary: p r)
  case 0
  then show ?case by simp
next
  case (Suc k)
  have "p * 1 \<le> p * 1.05 ^ Suc k"
    using Suc.prems(1) by (intro mult_left_mono one_le_power) simp_all
  then have p: "p \<le> 19" using Suc.prems(2) by simp
  have d: "1010 < fst (sumConsumerDemand scenarioConsumers p r)"
    using scenario_demand_lower [OF p] .
  have of: "max 1 (\<Sum>f\<leftarrow>scenarioFirms. js_or (capacity f) 0) = 1000"
    by (simp add: scenarioFirms_def js_or_def)
  have ih: "fst (calibrate k scenarioConsumers scenarioFirms (p * 1.05) r') = p * 1.05 * 1.05 ^ k" for r'
    using Suc.IH [of "p * 1.05" r'] Suc.prems by (simp add: mult.assoc)
  have step: "calibrate (Suc k) scenarioConsumers scenarioFirms p r
      = calibrate k scenarioConsumers scenarioFirms (p * 1.05)
          (snd (sumConsumerDemand scenarioConsumers p r))"
    using d by (simp add: case_prod_beta Let_def of)
  have pw: "p * 1.05 ^ Suc k = p * 1.05 * 1.05 ^ k" by simp
  show ?case unfolding step pw by (rule ih)
qed

lemma calibrate_scenario:
  "fst (calibrate 40 scenarioConsumers scenarioFirms p0_default r) = 1.05 ^ 40"
  using calibrate_scenario_step [of 1 40 r] by (simp add: p0_default_def power_divide)

lemma oracle_scenario:
  "p \<le> 20 \<Longrightarrow> oracleDemandAt scenarioConsumers p = 350 * (120 - 6 * p)"
  by (simp add: oracleDemandAt_def scenarioConsumers_def map_replicate_const sum_list_replicate)


text \<open>
  C9, as the code has it. In the scenario the loop runs through all of its 40 iterations,
  raising the price by 5 percent each time, and ends with the price \<open>1.05 ^ 40\<close> (about
  7.04), whatever the random source yields. There the aggregate demand, with or without
  noise, is above 25000 while the total capacity is 1000: the tolerance of 1 percent is
  not reached.
\<close>

theorem calibration_stops_short:
  "fst (calibrate 40 scenarioConsumers scenarioFirms p0_default r) = 1.05 ^ 40
   \<and> (\<Sum>f\<leftarrow>scenarioFirms. capacity f) = 1000
   \<and> 25000 < oracleDemandAt scenarioConsumers (1.05 ^ 40)
   \<and> 25000 < fst (sumConsumerDemand scenarioConsumers (1.05 ^ 40) r')"
proof -
  have p: "(1.05 :: real) ^ 40 \<le> 7.05" by (simp add: power_divide)
  have o: "25000 < oracleDemandAt scenarioConsumers (1.05 ^ 40)"
    using p by (subst oracle_scenario) simp_all
  have "real (length scenarioConsumers) * (0.95 * (120 - 6 * 1.05 ^ 40))
          \<le> fst (sumConsumerDemand scenarioConsumers (1.05 ^ 40) r')"
    using p by (intro sum_demand_lower) (simp_all add: scenarioConsumers_def)
  moreover have "25000 < real (length scenarioConsumers) * (0.95 * (120 - 6 * 1.05 ^ 40))"
    using p by (simp add: scenarioConsumers_def)
  ultimately have n: "25000 < fst (sumConsumerDemand scenarioConsumers (1.05 ^ 40) r')"
    by linarith
  show ?thesis
    using o n by (simp add: calibrate_scenario) (simp add: scenarioFirms_def)
qed


text \<open>
  The claim as stated: after the loop the demand at the price found differs from the
  total capacity by less than 1 percent of it. It does not.
\<close>

theorem calibration_counterexample:
  "\<not> \<bar>oracleDemandAt scenarioConsumers
        (fst (calibrate 40 scenarioConsumers scenarioFirms p0_default 12345))
       - (\<Sum>f\<leftarrow>scenarioFirms. capacity f)\<bar>
     < 0.01 * (\<Sum>f\<leftarrow>scenarioFirms. capacity f)"
proof -
  have p: "(1.05 :: real) ^ 40 \<le> 7.05" by (simp add: power_divide)
  have o: "25000 < oracleDemandAt scenarioConsumers (1.05 ^ 40)"
    using p by (subst oracle_scenario) simp_all
  have c: "(\<Sum>f\<leftarrow>scenarioFirms. capacity f) = 1000" by (simp add: scenarioFirms_def)
  show ?thesis
    unfolding calibrate_scenario c using o by simp
qed

section \<open>Adoption of innovations\<close>


lemma tierFirms_setTierFirms [simp]: "tierFirms l (setTierFirms l fs s) = fs"
  by (cases l) (simp_all add: tierFirms_def setTierFirms_def)











section \<open>Escalation of a due order\<close>

lemma pickFirm_nonempty:
  assumes "fs \<noteq> []" and "0 \<le> u" and "u < 1"
  shows "pickFirm fs u \<noteq> None"
proof -
  have n: "0 < real (length fs)" using assms(1) by simp
  have "u * real (length fs) < 1 * real (length fs)"
    using assms(3) n by (intro mult_strict_right_mono) auto
  then have "\<lfloor>u * real (length fs)\<rfloor> < int (length fs)"
    by (simp add: floor_less_iff)
  moreover have "0 \<le> \<lfloor>u * real (length fs)\<rfloor>"
    using assms(2) by simp
  ultimately show ?thesis
    by (simp add: pickFirm_def math_floor_def Let_def)
qed

text \<open>
  The loop body, met with a due order of the final tier that the intermediate firm cannot
  cover, appends an order to the raw tier that refers to it; nothing asks whether such an
  order is already on its way.
\<close>

lemma processOrder_escalates:
  assumes "level (orders s ! i) = PBC_to_PFP"
    and "findFirm (oto (orders s ! i)) (firmsPFP s) = Some jp"
    and "findFirm (ofrom (orders s ! i)) (firmsPBC s) = Some jb"
    and "js_or (inventory (firmsPFP s ! jp)) 0 < amount (orders s ! i)"
    and "firmsPMP s \<noteq> []"
  shows "\<exists>ch. orders (processOrder i s) = orders s @ [ch] \<and> orig ch = Some i
              \<and> level ch = PFP_to_PMP \<and> \<not> filled ch
              \<and> amount ch = amount (orders s ! i) - js_or (inventory (firmsPFP s ! jp)) 0"
proof -
  obtain f where "pickFirm (firmsPMP s) (fst (mulberry32 (srng s))) = Some f"
    using pickFirm_nonempty [OF assms(5) u_pos u_lt1, of "srng s"] by auto
  then show ?thesis
    using assms(1-4) by (simp add: processOrder_def Let_def case_prod_beta max_def)
qed


text \<open>Ticks 6 and 7 of the shortage cascade, computed.\<close>

lemma runTicks_cascadeState:
  "snd (runTicks [autoInputs, autoInputs] cascadeState) =
     \<lparr>tick = 7, seed = 12345, srng = 21978802101, price = 1, consumers = [],
        firmsPBC =
          [\<lparr>fid = 0, tfpA = 1, capacity = 0, marginalCost = 1 / 2,
              inventory = 0, planned = 0, history = [(6, 0), (7, 0)]\<rparr>],
        firmsPFP =
          [\<lparr>fid = 0, tfpA = 1, capacity = 40, marginalCost = 1 / 2,
              inventory = 36262819405 / 536870912, planned = 0,
              history =
                [(6, 7414436971 / 268435456),
                 (7, 21433945463 / 536870912)]\<rparr>],
        firmsPMP =
          [\<lparr>fid = 0, tfpA = 1, capacity = 60, marginalCost = 1 / 2,
              inventory = 93021855915 / 1073741824, planned = 0,
              history =
                [(6, 146981337 / 4194304), (7, 55394633643 / 1073741824)]\<rparr>],
        orders =
          [\<lparr>level = PBC_to_PFP, ofrom = 0, oto = 0, amount = 1000, due = 6,
              filled = False, orig = None\<rparr>,
           \<lparr>level = PFP_to_PMP, ofrom = 0, oto = 0,
              amount = 261021019029 / 268435456, due = 19, filled = False,
              orig = Some 0\<rparr>,
           \<lparr>level = PFP_to_PMP, ofrom = 0, oto = 0,
              amount = 500608092595 / 536870912, due = 19, filled = False,
              orig = Some 0\<rparr>],
        logs = [], innovations = []\<rparr>"
  by (simp add: tick_defs cascadeState_def autoInputs_def Let_def cong: eval_cong)


text \<open>
  C7. The claim has exactly one order to the raw tier created for an unfilled due order
  before any fill. In the code the due order is visited again on every tick and is
  escalated again each time: after ticks 6 and 7 two orders to the raw tier refer to
  it, and nothing has been filled.
\<close>

theorem due_parent_escalates_again:
  "map level (orders (snd (runTicks [autoInputs, autoInputs] cascadeState)))
     = [PBC_to_PFP, PFP_to_PMP, PFP_to_PMP]
   \<and> map orig (orders (snd (runTicks [autoInputs, autoInputs] cascadeState)))
     = [None, Some 0, Some 0]
   \<and> map filled (orders (snd (runTicks [autoInputs, autoInputs] cascadeState)))
     = [False, False, False]
   \<and> tick (snd (runTicks [autoInputs, autoInputs] cascadeState)) = 7"
  unfolding runTicks_cascadeState by simp

section \<open>Determinism\<close>






























end
